theory Spec2Isabelle
  imports Main "HOL-Library.Signed_Division" "HOL-Library.Sublist"
begin

unbundle bit_operations_syntax

section \<open>Calendar arithmetic of TimeUtils.cpp\<close>

text \<open>
  The embedding follows \<^verbatim>\<open>AVSCommon/Utils/src/TimeUtils.cpp\<close> as it is compiled with
  \<^verbatim>\<open>USE_CUSTOM_TIMEGM\<close> set, the branch in which \<^verbatim>\<open>timegmCustom\<close> replaces the
  platform's \<^verbatim>\<open>timegm\<close>.

  \<^verbatim>\<open>std::time_t\<close> is a signed integer type (the file's \<^verbatim>\<open>static_assert\<close> requires
  that its division rounds towards zero). It is modelled by \<^typ>\<open>int\<close>; the C++
  operators \<^verbatim>\<open>/\<close> and \<^verbatim>\<open>%\<close> are \<open>sdiv\<close> and \<open>smod\<close>, which truncate towards
  zero, and \<^verbatim>\<open>&\<close> is \<open>AND\<close>, which on \<^typ>\<open>int\<close> is the two's complement
  conjunction. Signed overflow is undefined in C++ and is not modelled: the values
  are those of a \<^verbatim>\<open>time_t\<close> wide enough to hold them.
\<close>

subsection \<open>Constants\<close>

definition kSecondsInMinute :: int where "kSecondsInMinute = 60"
definition kMinutesInHour :: int where "kMinutesInHour = 60"
definition kHoursInDay :: int where "kHoursInDay = 24"
definition kDaysInYear :: int where "kDaysInYear = 365"
definition kSecondsInHour :: int where "kSecondsInHour = kSecondsInMinute * kMinutesInHour"
definition kSecondsInDay :: int where "kSecondsInDay = kSecondsInHour * kHoursInDay"
definition kSecondsInYear :: int where "kSecondsInYear = kDaysInYear * kSecondsInDay"
definition kEpochYearBase :: int where "kEpochYearBase = 1970"
definition kTMYearBase :: int where "kTMYearBase = 1900"

definition kDaysUptoMonth :: "int list" where
  "kDaysUptoMonth =
    [0,
     31,
     31 + 28,
     31 + 28 + 31,
     31 + 28 + 31 + 30,
     31 + 28 + 31 + 30 + 31,
     31 + 28 + 31 + 30 + 31 + 30,
     31 + 28 + 31 + 30 + 31 + 30 + 31,
     31 + 28 + 31 + 30 + 31 + 30 + 31 + 31,
     31 + 28 + 31 + 30 + 31 + 30 + 31 + 31 + 30,
     31 + 28 + 31 + 30 + 31 + 30 + 31 + 31 + 30 + 31,
     31 + 28 + 31 + 30 + 31 + 30 + 31 + 31 + 30 + 31 + 30]"

definition kDaysUptoMonthLeapYear :: "int list" where
  "kDaysUptoMonthLeapYear =
    [0,
     31,
     31 + 29,
     31 + 29 + 31,
     31 + 29 + 31 + 30,
     31 + 29 + 31 + 30 + 31,
     31 + 29 + 31 + 30 + 31 + 30,
     31 + 29 + 31 + 30 + 31 + 30 + 31,
     31 + 29 + 31 + 30 + 31 + 30 + 31 + 31,
     31 + 29 + 31 + 30 + 31 + 30 + 31 + 31 + 30,
     31 + 29 + 31 + 30 + 31 + 30 + 31 + 31 + 30 + 31,
     31 + 29 + 31 + 30 + 31 + 30 + 31 + 31 + 30 + 31 + 30]"

subsection \<open>Leap years\<close>

text \<open>\<^verbatim>\<open>IsLeapYear\<close>: the argument is a year counted from 1900, as \<^verbatim>\<open>tm_year\<close> is.\<close>

definition IsLeapYear :: "int \<Rightarrow> bool" where
  "IsLeapYear year =
    (let common_year =
           ((year AND 3) \<noteq> 0) \<or>
           (((year + kTMYearBase) smod 100 = 0) \<and> ((year + kTMYearBase) smod 400 \<noteq> 0))
     in \<not> common_year)"

definition kPosBase4 :: int where "kPosBase4 = (kEpochYearBase + 3) smod 4"
definition kPosBase100 :: int where "kPosBase100 = (kEpochYearBase + 99) smod 100"
definition kPosBase400 :: int where "kPosBase400 = (kEpochYearBase + 399) smod 400"
definition kNegBase4 :: int where "kNegBase4 = 4 - (kEpochYearBase smod 4)"
definition kNegBase100 :: int where "kNegBase100 = 100 - (kEpochYearBase smod 100)"
definition kNegBase400 :: int where "kNegBase400 = 400 - (kEpochYearBase smod 400)"

text \<open>\<^verbatim>\<open>NumLeapDays\<close>: the argument is a year counted from 1970.\<close>

definition NumLeapDays :: "int \<Rightarrow> int" where
  "NumLeapDays year =
    (if year \<ge> 0 then
       ((year + kPosBase4) sdiv 4) - ((year + kPosBase100) sdiv 100) +
       ((year + kPosBase400) sdiv 400)
     else
       ((year - kNegBase4) sdiv 4) - ((year - kNegBase100) sdiv 100) +
       ((year - kNegBase400) sdiv 400))"

text \<open>
  The Gregorian rule in the specification's words (\<open>mod\<close> is the mathematical
  remainder), and the number of leap years \<open>Y\<close> with \<open>a \<le> Y < b\<close>.
\<close>

definition gregorianLeap :: "int \<Rightarrow> bool" where
  "gregorianLeap Y = (Y mod 4 = 0 \<and> (Y mod 100 \<noteq> 0 \<or> Y mod 400 = 0))"

definition leapYearsBetween :: "int \<Rightarrow> int \<Rightarrow> int" where
  "leapYearsBetween a b = int (length (filter gregorianLeap [a..b - 1]))"

text \<open>The number of leap years from year 1 through year \<open>n\<close>, with rounding down.\<close>

definition leapsThrough :: "int \<Rightarrow> int" where
  "leapsThrough n = n div 4 - n div 100 + n div 400"

subsection \<open>The broken-down time and \<^verbatim>\<open>timegmCustom\<close>\<close>

text \<open>
  The fields of \<^verbatim>\<open>struct tm\<close> that the file reads or writes: \<^verbatim>\<open>tm_year\<close> counts
  from 1900 and \<^verbatim>\<open>tm_mon\<close> from 0.
\<close>

record tm =
  tm_sec :: int
  tm_min :: int
  tm_hour :: int
  tm_mday :: int
  tm_mon :: int
  tm_year :: int
  tm_isdst :: int

text \<open>
  What C++ leaves undefined is a value of its own, so that no result is invented
  for it: reading a table outside its bounds, and writing through a null pointer.
\<close>

datatype fault = NullPointerDereference | ArrayIndexOutOfRange

definition arrayRead :: "int list \<Rightarrow> int \<Rightarrow> fault + int" where
  "arrayRead a i =
    (if 0 \<le> i \<and> i < int (length a) then Inr (a ! nat i) else Inl ArrayIndexOutOfRange)"

definition timegmCustom :: "tm \<Rightarrow> fault + int" where
  "timegmCustom t =
    (let years_since_epoch = tm_year t + kTMYearBase - kEpochYearBase;
         time = years_since_epoch * kSecondsInYear +
                NumLeapDays years_since_epoch * kSecondsInDay
     in case arrayRead (if IsLeapYear (tm_year t) then kDaysUptoMonthLeapYear
                        else kDaysUptoMonth) (tm_mon t) of
          Inl f \<Rightarrow> Inl f
        | Inr daysUpto \<Rightarrow>
            Inr (time + daysUpto * kSecondsInDay +
                 ((tm_mday t - 1) * kSecondsInDay + (tm_hour t * kSecondsInHour) +
                  (tm_min t * kSecondsInMinute) + tm_sec t)))"

subsection \<open>Output parameters and log entries\<close>

text \<open>
  An output parameter is a pointer that is null or valid. A call yields the value
  it returns, what it wrote through the output parameter (\<open>None\<close> when it wrote
  nothing, so that the cell behind the pointer is as it was) and the entries it
  logged with \<^verbatim>\<open>ACSDK_ERROR\<close>: \<open>LogM event message\<close> for \<^verbatim>\<open>LX(event).m(message)\<close> and
  \<open>LogD event key value\<close> for \<^verbatim>\<open>LX(event).d(key, value)\<close>.
\<close>

datatype outPtr = NullPtr | ValidPtr

datatype logEntry = LogM string string | LogD string string nat

record 'a outcome =
  returned :: bool
  written :: "'a option"
  logged :: "logEntry list"

definition convertToUtcTimeT :: "tm option \<Rightarrow> outPtr \<Rightarrow> fault + int outcome" where
  "convertToUtcTimeT utcTm ret =
    (if ret = NullPtr then
       Inr \<lparr>returned = False, written = None,
            logged = [LogM ''convertToUtcTimeT'' ''return variable is null'']\<rparr>
     else case utcTm of
       None \<Rightarrow> Inl NullPointerDereference
     | Some t \<Rightarrow>
         (case timegmCustom t of
            Inl f \<Rightarrow> Inl f
          | Inr v \<Rightarrow> Inr \<lparr>returned = True, written = Some v, logged = []\<rparr>))"

subsection \<open>The layout of the time string\<close>

definition ENCODED_TIME_STRING_YEAR_STRING_LENGTH :: nat where
  "ENCODED_TIME_STRING_YEAR_STRING_LENGTH = 4"
definition ENCODED_TIME_STRING_MONTH_STRING_LENGTH :: nat where
  "ENCODED_TIME_STRING_MONTH_STRING_LENGTH = 2"
definition ENCODED_TIME_STRING_DAY_STRING_LENGTH :: nat where
  "ENCODED_TIME_STRING_DAY_STRING_LENGTH = 2"
definition ENCODED_TIME_STRING_HOUR_STRING_LENGTH :: nat where
  "ENCODED_TIME_STRING_HOUR_STRING_LENGTH = 2"
definition ENCODED_TIME_STRING_MINUTE_STRING_LENGTH :: nat where
  "ENCODED_TIME_STRING_MINUTE_STRING_LENGTH = 2"
definition ENCODED_TIME_STRING_SECOND_STRING_LENGTH :: nat where
  "ENCODED_TIME_STRING_SECOND_STRING_LENGTH = 2"
definition ENCODED_TIME_STRING_POSTFIX_STRING_LENGTH :: nat where
  "ENCODED_TIME_STRING_POSTFIX_STRING_LENGTH = 4"
definition ENCODED_TIME_STRING_DASH_SEPARATOR_STRING :: string where
  "ENCODED_TIME_STRING_DASH_SEPARATOR_STRING = ''-''"
definition ENCODED_TIME_STRING_T_SEPARATOR_STRING :: string where
  "ENCODED_TIME_STRING_T_SEPARATOR_STRING = ''T''"
definition ENCODED_TIME_STRING_COLON_SEPARATOR_STRING :: string where
  "ENCODED_TIME_STRING_COLON_SEPARATOR_STRING = '':''"
definition ENCODED_TIME_STRING_PLUS_SEPARATOR_STRING :: string where
  "ENCODED_TIME_STRING_PLUS_SEPARATOR_STRING = ''+''"

definition ENCODED_TIME_STRING_YEAR_OFFSET :: nat where
  "ENCODED_TIME_STRING_YEAR_OFFSET = 0"
definition ENCODED_TIME_STRING_MONTH_OFFSET :: nat where
  "ENCODED_TIME_STRING_MONTH_OFFSET =
     ENCODED_TIME_STRING_YEAR_OFFSET + ENCODED_TIME_STRING_YEAR_STRING_LENGTH +
     length ENCODED_TIME_STRING_DASH_SEPARATOR_STRING"
definition ENCODED_TIME_STRING_DAY_OFFSET :: nat where
  "ENCODED_TIME_STRING_DAY_OFFSET =
     ENCODED_TIME_STRING_MONTH_OFFSET + ENCODED_TIME_STRING_MONTH_STRING_LENGTH +
     length ENCODED_TIME_STRING_DASH_SEPARATOR_STRING"
definition ENCODED_TIME_STRING_HOUR_OFFSET :: nat where
  "ENCODED_TIME_STRING_HOUR_OFFSET =
     ENCODED_TIME_STRING_DAY_OFFSET + ENCODED_TIME_STRING_DAY_STRING_LENGTH +
     length ENCODED_TIME_STRING_T_SEPARATOR_STRING"
definition ENCODED_TIME_STRING_MINUTE_OFFSET :: nat where
  "ENCODED_TIME_STRING_MINUTE_OFFSET =
     ENCODED_TIME_STRING_HOUR_OFFSET + ENCODED_TIME_STRING_HOUR_STRING_LENGTH +
     length ENCODED_TIME_STRING_COLON_SEPARATOR_STRING"
definition ENCODED_TIME_STRING_SECOND_OFFSET :: nat where
  "ENCODED_TIME_STRING_SECOND_OFFSET =
     ENCODED_TIME_STRING_MINUTE_OFFSET + ENCODED_TIME_STRING_MINUTE_STRING_LENGTH +
     length ENCODED_TIME_STRING_COLON_SEPARATOR_STRING"
definition ENCODED_TIME_STRING_EXPECTED_LENGTH :: nat where
  "ENCODED_TIME_STRING_EXPECTED_LENGTH =
     ENCODED_TIME_STRING_SECOND_OFFSET + ENCODED_TIME_STRING_SECOND_STRING_LENGTH +
     length ENCODED_TIME_STRING_PLUS_SEPARATOR_STRING +
     ENCODED_TIME_STRING_POSTFIX_STRING_LENGTH"

text \<open>
  \<^verbatim>\<open>std::string::substr(pos, len)\<close>. It throws when \<open>pos\<close> exceeds the length of the
  string; the parser calls it only behind its length check, with \<open>pos\<close> at most 17
  on a string of length 24.
\<close>

definition substr :: "string \<Rightarrow> nat \<Rightarrow> nat \<Rightarrow> string" where
  "substr s pos len = take len (drop pos s)"

subsection \<open>\<^verbatim>\<open>convert8601TimeStringToUnix\<close>\<close>

text \<open>
  \<^verbatim>\<open>stringToInt\<close> lives in \<^verbatim>\<open>AVSCommon/Utils/String/StringUtils\<close>, outside this file,
  and is a parameter: \<open>Some v\<close> when it returns true having stored \<open>v\<close>, \<open>None\<close> when
  it returns false.
\<close>

definition parseFailed :: "string \<Rightarrow> int outcome" where
  "parseFailed message =
     \<lparr>returned = False, written = None,
      logged = [LogM ''convert8601TimeStringToUnixFailed'' message]\<rparr>"

definition convert8601TimeStringToUnix ::
  "(string \<Rightarrow> int option) \<Rightarrow> string \<Rightarrow> outPtr \<Rightarrow> fault + int outcome" where
  "convert8601TimeStringToUnix stringToInt timeString convertedTime =
    (if convertedTime = NullPtr then
       Inr (parseFailed ''convertedTime parameter was nullptr.'')
     else if length timeString \<noteq> ENCODED_TIME_STRING_EXPECTED_LENGTH then
       Inr \<lparr>returned = False, written = None,
            logged = [LogD ''convert8601TimeStringToUnixFailed''
                        ''unexpected time string length:'' (length timeString)]\<rparr>
     else case stringToInt (substr timeString ENCODED_TIME_STRING_YEAR_OFFSET
                              ENCODED_TIME_STRING_YEAR_STRING_LENGTH) of
       None \<Rightarrow> Inr (parseFailed (''error parsing year. Input:'' @ timeString))
     | Some tmYear \<Rightarrow>
     (case stringToInt (substr timeString ENCODED_TIME_STRING_MONTH_OFFSET
                          ENCODED_TIME_STRING_MONTH_STRING_LENGTH) of
       None \<Rightarrow> Inr (parseFailed (''error parsing month. Input:'' @ timeString))
     | Some tmMon \<Rightarrow>
     (case stringToInt (substr timeString ENCODED_TIME_STRING_DAY_OFFSET
                          ENCODED_TIME_STRING_DAY_STRING_LENGTH) of
       None \<Rightarrow> Inr (parseFailed (''error parsing day. Input:'' @ timeString))
     | Some tmMday \<Rightarrow>
     (case stringToInt (substr timeString ENCODED_TIME_STRING_HOUR_OFFSET
                          ENCODED_TIME_STRING_HOUR_STRING_LENGTH) of
       None \<Rightarrow> Inr (parseFailed (''error parsing hour. Input:'' @ timeString))
     | Some tmHour \<Rightarrow>
     (case stringToInt (substr timeString ENCODED_TIME_STRING_MINUTE_OFFSET
                          ENCODED_TIME_STRING_MINUTE_STRING_LENGTH) of
       None \<Rightarrow> Inr (parseFailed (''error parsing minute. Input:'' @ timeString))
     | Some tmMin \<Rightarrow>
     (case stringToInt (substr timeString ENCODED_TIME_STRING_SECOND_OFFSET
                          ENCODED_TIME_STRING_SECOND_STRING_LENGTH) of
       None \<Rightarrow> Inr (parseFailed (''error parsing second. Input:'' @ timeString))
     | Some tmSec \<Rightarrow>
       (let timeInfo = \<lparr>tm_sec = tmSec, tm_min = tmMin, tm_hour = tmHour, tm_mday = tmMday,
                         tm_mon = tmMon - 1, tm_year = tmYear - 1900, tm_isdst = 0\<rparr>
        in case convertToUtcTimeT (Some timeInfo) ValidPtr of
             Inl f \<Rightarrow> Inl f
           | Inr r \<Rightarrow>
               (if \<not> returned r then Inr \<lparr>returned = False, written = None, logged = logged r\<rparr>
                else Inr \<lparr>returned = True, written = written r, logged = logged r\<rparr>))))))))"

subsection \<open>\<^verbatim>\<open>getCurrentUnixTime\<close>\<close>

text \<open>The reading of the system clock, as a \<^verbatim>\<open>time_t\<close>, is the argument \<open>now\<close>.\<close>

definition getCurrentUnixTime :: "int \<Rightarrow> outPtr \<Rightarrow> int outcome" where
  "getCurrentUnixTime now currentTime =
    (if currentTime = NullPtr then
       \<lparr>returned = False, written = None,
        logged = [LogM ''getCurrentUnixTimeFailed'' ''currentTime parameter was nullptr.'']\<rparr>
     else \<lparr>returned = (now \<ge> 0), written = Some now, logged = []\<rparr>)"

subsection \<open>\<^verbatim>\<open>convertTimeToUtcIso8601Rfc3339\<close>\<close>

text \<open>
  The stream insertion of a signed integer: its decimal digits behind a minus sign
  when it is negative, padded on the left with the fill character up to the field
  width (the stream's adjustment is the default one, to the right).
\<close>

definition digitChar :: "nat \<Rightarrow> char" where
  "digitChar n = ''0123456789'' ! n"

fun showNat :: "nat \<Rightarrow> string" where
  "showNat n = (if n < 10 then [digitChar n] else showNat (n div 10) @ [digitChar (n mod 10)])"

declare showNat.simps [simp del]

definition showInt :: "int \<Rightarrow> string" where
  "showInt v = (if v < 0 then ''-'' @ showNat (nat (- v)) else showNat (nat v))"

definition streamPut :: "nat \<Rightarrow> char \<Rightarrow> int \<Rightarrow> string" where
  "streamPut width fill v = replicate (width - length (showInt v)) fill @ showInt v"

text \<open>
  The time point is its count \<open>tp\<close> of ticks of the clock since the epoch, and
  \<open>ticksPerMs\<close> is the number of ticks in a millisecond; \<^verbatim>\<open>duration_cast\<close> truncates.
  \<^verbatim>\<open>SafeCTimeAccess::getGmtime\<close> and \<^verbatim>\<open>std::strftime\<close> are parameters: \<open>getGmtime\<close>
  is \<open>None\<close> when the call returns false, and \<open>strftime maxsize format t\<close> is the text
  left in the buffer, whose length is the value the call returns (the empty text
  when it returns 0). The output pointer is not checked before it is written through.
\<close>

definition convertTimeToUtcIso8601Rfc3339 ::
  "(int \<Rightarrow> tm option) \<Rightarrow> (nat \<Rightarrow> string \<Rightarrow> tm \<Rightarrow> string) \<Rightarrow> int \<Rightarrow> int \<Rightarrow> outPtr
     \<Rightarrow> fault + string outcome" where
  "convertTimeToUtcIso8601Rfc3339 getGmtime strftime ticksPerMs tp iso8601TimeString =
    (let ms = tp sdiv ticksPerMs;
         sec = ms sdiv 1000;
         timeSecs = sec
     in case getGmtime timeSecs of
          None \<Rightarrow>
            Inr \<lparr>returned = False, written = None,
                 logged = [LogM ''convertTimeToUtcIso8601Rfc3339'' ''cannot retrieve tm struct'']\<rparr>
        | Some utcTm \<Rightarrow>
            (let buf = strftime (29 - 1) ''%Y-%m-%dT%H:%M:%S'' utcTm;
                 strftimeResult = length buf
             in if strftimeResult = 0 then
                  Inr \<lparr>returned = False, written = None,
                       logged = [LogM ''convertTimeToUtcIso8601Rfc3339Failed''
                                   ''strftime(..) failed'']\<rparr>
                else
                  (let millisecondTrailer =
                         buf @ ''.'' @ streamPut 3 (CHR ''0'') (ms smod 1000) @ ''Z''
                   in if iso8601TimeString = NullPtr then Inl NullPointerDereference
                      else Inr \<lparr>returned = True, written = Some millisecondTrailer,
                                logged = []\<rparr>)))"

section \<open>The specification's side\<close>

subsection \<open>Civil time\<close>

text \<open>
  The civil tuple of the specification: the full year and the month from 1 to 12.
  \<open>civilToEpoch\<close> is \<^verbatim>\<open>timegmCustom\<close> behind the adjustment "for C struct tm
  standard" that the parser makes (the year less 1900, the month less 1, the
  daylight saving flag cleared).
\<close>

record CivilTime =
  year :: int
  month :: int
  day :: int
  hour :: int
  minute :: int
  second :: int

definition structTm :: "CivilTime \<Rightarrow> tm" where
  "structTm c =
     \<lparr>tm_sec = second c, tm_min = minute c, tm_hour = hour c, tm_mday = day c,
      tm_mon = month c - 1, tm_year = year c - 1900, tm_isdst = 0\<rparr>"

definition civilToEpoch :: "CivilTime \<Rightarrow> fault + int" where
  "civilToEpoch c = timegmCustom (structTm c)"

definition daysInMonth :: "int \<Rightarrow> int \<Rightarrow> int" where
  "daysInMonth y m =
     (if m = 2 then (if gregorianLeap y then 29 else 28)
      else if m = 4 \<or> m = 6 \<or> m = 9 \<or> m = 11 then 30 else 31)"

text \<open>
  Modelled from the spec: the operation \<open>epochToCivil\<close>, the breakdown of epoch seconds
  into a civil time in UTC, is delegated to the safe calendar access collaborator
  (\<^verbatim>\<open>SafeCTimeAccess::getGmtime\<close>), which is not in this file. The specification asks
  for the standard inverse civil-calendar algorithm; this is the closed form that
  counts days in eras of 400 years, each year running from the first of March.
\<close>

definition civilFromDays :: "int \<Rightarrow> int \<times> int \<times> int" where
  "civilFromDays days =
    (let z = days + 719468;
         era = z div 146097;
         doe = z - era * 146097;
         yoe = (doe - doe div 1460 + doe div 36524 - doe div 146096) div 365;
         y = yoe + era * 400;
         doy = doe - (365 * yoe + yoe div 4 - yoe div 100);
         mp = (5 * doy + 2) div 153;
         d = doy - (153 * mp + 2) div 5 + 1;
         m = (if mp < 10 then mp + 3 else mp - 9)
     in (if m \<le> 2 then y + 1 else y, m, d))"

text \<open>
  Modelled from the spec: \<open>epochToCivil\<close> itself, absent from this file as said above: the
  days since the epoch by the closed form, the time of day from the seconds left over.
\<close>

definition epochToCivil :: "int \<Rightarrow> CivilTime" where
  "epochToCivil t =
    (let days = t div 86400;
         rest = t mod 86400;
         (y, m, d) = civilFromDays days
     in \<lparr>year = y, month = m, day = d,
         hour = rest div 3600, minute = rest mod 3600 div 60, second = rest mod 60\<rparr>)"

text \<open>
  Modelled from the spec: \<open>getUtcCivilBreakdown\<close> of the safe calendar access
  collaborator, as the formatter receives it: the breakdown above as a
  \<^verbatim>\<open>struct tm\<close>, always available.
\<close>

definition getGmtimeUtc :: "int \<Rightarrow> tm option" where
  "getGmtimeUtc t = Some (structTm (epochToCivil t))"

text \<open>
  Modelled from the spec: the platform's format step for the one format the
  formatter uses, \<^verbatim>\<open>YYYY-MM-DDTHH:MM:SS\<close> with zero-padded fields. As
  \<^verbatim>\<open>std::strftime\<close> does, it yields nothing when the text and its terminator exceed
  \<open>maxsize\<close>.
\<close>

definition strftimeIso :: "nat \<Rightarrow> string \<Rightarrow> tm \<Rightarrow> string" where
  "strftimeIso maxsize format t =
    (let text = streamPut 4 (CHR ''0'') (tm_year t + 1900) @ ''-'' @
                streamPut 2 (CHR ''0'') (tm_mon t + 1) @ ''-'' @
                streamPut 2 (CHR ''0'') (tm_mday t) @ ''T'' @
                streamPut 2 (CHR ''0'') (tm_hour t) @ '':'' @
                streamPut 2 (CHR ''0'') (tm_min t) @ '':'' @
                streamPut 2 (CHR ''0'') (tm_sec t)
     in if format = ''%Y-%m-%dT%H:%M:%S'' \<and> length text < maxsize then text else [])"

text \<open>
  Modelled from the spec: the string-to-integer collaborator (\<^verbatim>\<open>stringToInt\<close> of
  \<^verbatim>\<open>StringUtils\<close>, not in this file) on fixed-width digit substrings: it fails if the
  input contains a character that is not a digit.
\<close>

definition isDigit :: "char \<Rightarrow> bool" where
  "isDigit c = (c \<in> set ''0123456789'')"

text \<open>Modelled from the spec: the value of a digit of that collaborator's input.\<close>

definition digitValue :: "char \<Rightarrow> int" where
  "digitValue c = int (of_char c) - 48"

text \<open>
  Modelled from the spec: the conversion of that collaborator, the decimal value of a
  text that is not empty and holds digits only.
\<close>

definition stringToIntDigits :: "string \<Rightarrow> int option" where
  "stringToIntDigits s =
    (if s \<noteq> [] \<and> list_all isDigit s
     then Some (foldl (\<lambda>acc c. 10 * acc + digitValue c) 0 s) else None)"

text \<open>A value from 0 to 999 as exactly three decimal digits.\<close>

definition threeDigits :: "int \<Rightarrow> string" where
  "threeDigits n =
     [digitChar (nat (n div 100 mod 10)), digitChar (nat (n div 10 mod 10)),
      digitChar (nat (n mod 10))]"

text \<open>What a caller observes of a call: its fault, or the value returned and the value written.\<close>

definition observable :: "fault + 'a outcome \<Rightarrow> fault + bool \<times> 'a option" where
  "observable r = map_sum id (\<lambda>x. (returned x, written x)) r"

section \<open>Properties\<close>

subsection \<open>Truncating and rounding-down division\<close>

lemma sdiv_pos: "0 \<le> a \<Longrightarrow> 0 < b \<Longrightarrow> (a::int) sdiv b = a div b"
  by (simp add: signed_divide_int_def sgn_if)

lemma sdiv_neg: "a < 0 \<Longrightarrow> 0 < b \<Longrightarrow> (a::int) sdiv b = - ((- a) div b)"
  by (simp add: signed_divide_int_def sgn_if)

lemma smod_zero_iff: "((a::int) smod b = 0) = (a mod b = 0)"
proof -
  have "(a smod b = 0) = (\<bar>a\<bar> mod \<bar>b\<bar> = 0)"
    by (auto simp add: signed_modulo_int_def sgn_if)
  also have "\<dots> = (b dvd a)"
    by (simp add: mod_eq_0_iff_dvd)
  finally show ?thesis by (simp add: mod_eq_0_iff_dvd)
qed

lemma and3: "(x::int) AND 3 = x mod 4"
  using take_bit_eq_mask[of 2 x] by (simp add: mask_eq_exp_minus_1 take_bit_eq_mod)

lemma div_between: "0 < b \<Longrightarrow> b * q \<le> a \<Longrightarrow> a < b * q + b \<Longrightarrow> (a::int) div b = q"
  by (rule int_div_pos_eq[of a b q "a - b * q"]) auto

lemma div_shift: "b \<noteq> 0 \<Longrightarrow> ((a::int) + b * c) div b = a div b + c"
  by simp

lemma div_step:
  assumes "0 < k"
  shows "((n::int) + 1) div k = n div k + (if (n + 1) mod k = 0 then 1 else 0)"
proof -
  define q r where "q = n div k" and "r = n mod k"
  have n: "n = k * q + r" by (simp add: q_def r_def)
  have lo: "0 \<le> r" and hi: "r < k" using assms by (simp_all add: r_def)
  show ?thesis
  proof (cases "r + 1 = k")
    case True
    have e: "n + 1 = k * (q + 1) + 0"
      using n True by (simp add: algebra_simps)
    have "(n + 1) div k = q + 1" and "(n + 1) mod k = 0"
      using assms int_div_pos_eq[OF e] int_mod_pos_eq[OF e] by simp_all
    then show ?thesis by (simp add: q_def)
  next
    case False
    have e: "n + 1 = k * q + (r + 1)"
      using n by simp
    have b: "0 \<le> r + 1" "r + 1 < k" using lo hi False by simp_all
    have "(n + 1) div k = q" and "(n + 1) mod k = r + 1"
      using int_div_pos_eq[OF e b] int_mod_pos_eq[OF e b] by simp_all
    then show ?thesis using lo by (simp add: q_def)
  qed
qed

text \<open>Truncation of a negative dividend is rounding down of the biased dividend.\<close>

lemma sdiv_neg_ceiling:
  assumes "a < 0" "0 < b"
  shows "(a::int) sdiv b = (a + (b - 1)) div b"
proof -
  define q r where "q = (a + (b - 1)) div b" and "r = (a + (b - 1)) mod b"
  have e: "a + (b - 1) = b * q + r" by (simp add: q_def r_def)
  have r: "0 \<le> r" "r < b" using assms by (simp_all add: r_def)
  have e': "- a = b * (- q) + (b - 1 - r)"
    using e by (simp add: algebra_simps)
  have "(- a) div b = - q"
    using int_div_pos_eq[OF e'] r by simp
  then show ?thesis
    using assms by (simp add: sdiv_neg q_def)
qed

subsection \<open>Leap years\<close>

lemma IsLeapYear_gregorianLeap: "IsLeapYear (Y - 1900) = gregorianLeap Y"
proof -
  have "(Y - 1900) mod 4 = Y mod 4"
    using mod_mult_self2[of Y 4 "-475"] by simp
  then show ?thesis
    by (auto simp add: IsLeapYear_def gregorianLeap_def kTMYearBase_def and3 smod_zero_iff)
qed

text \<open>
  Claim C4. For every year \<open>Y\<close> from 1600 to 2400, \<open>IsLeapYear (Y - 1900)\<close> holds if and
  only if \<open>Y\<close> is divisible by 4 and is not divisible by 100 or is divisible by 400;
  2000 and 2004 are leap years, 1900 and 2001 are not.
\<close>

theorem IsLeapYear_gregorian_rule:
  "(1600 \<le> Y \<and> Y \<le> 2400 \<longrightarrow>
      IsLeapYear (Y - 1900) = (Y mod 4 = 0 \<and> (Y mod 100 \<noteq> 0 \<or> Y mod 400 = 0)))
   \<and> IsLeapYear (2000 - 1900) \<and> \<not> IsLeapYear (1900 - 1900)
   \<and> IsLeapYear (2004 - 1900) \<and> \<not> IsLeapYear (2001 - 1900)"
  by (simp only: IsLeapYear_gregorianLeap) (simp add: gregorianLeap_def)

theorem IsLeapYear_gregorian_rule_witness:
  "(1600::int) \<le> 2000 \<and> (2000::int) \<le> 2400 \<and>
   IsLeapYear (2000 - 1900) =
     ((2000::int) mod 4 = 0 \<and> ((2000::int) mod 100 \<noteq> 0 \<or> (2000::int) mod 400 = 0))"
  using IsLeapYear_gregorian_rule[of 2000] by simp

subsection \<open>Leap days since 1970\<close>

lemma leapsThrough_step:
  "leapsThrough (n + 1) = leapsThrough n + (if gregorianLeap (n + 1) then 1 else 0)"
proof -
  have a: "(n + 1) mod 400 = 0 \<Longrightarrow> (n + 1) mod 100 = 0"
    using mod_mod_cancel[of 100 400 "n + 1"] by simp
  have b: "(n + 1) mod 100 = 0 \<Longrightarrow> (n + 1) mod 4 = 0"
    using mod_mod_cancel[of 4 100 "n + 1"] by simp
  have d4: "(n + 1) div 4 = n div 4 + (if (n + 1) mod 4 = 0 then 1 else 0)"
    by (rule div_step) simp
  have d100: "(n + 1) div 100 = n div 100 + (if (n + 1) mod 100 = 0 then 1 else 0)"
    by (rule div_step) simp
  have d400: "(n + 1) div 400 = n div 400 + (if (n + 1) mod 400 = 0 then 1 else 0)"
    by (rule div_step) simp
  show ?thesis
    unfolding leapsThrough_def gregorianLeap_def d4 d100 d400
    using a b
    by (cases "(n + 1) mod 4 = 0"; cases "(n + 1) mod 100 = 0"; cases "(n + 1) mod 400 = 0")
       simp_all
qed

text \<open>Both branches of \<^verbatim>\<open>NumLeapDays\<close> are one formula with rounding down.\<close>

lemma NumLeapDays_biased:
  "NumLeapDays y = (y + 1) div 4 - (y + 69) div 100 + (y + 369) div 400"
proof (cases "0 \<le> y")
  case True
  then show ?thesis
    by (simp add: NumLeapDays_def kPosBase4_def kPosBase100_def kPosBase400_def
        kEpochYearBase_def sdiv_pos)
next
  case False
  then show ?thesis
    by (simp add: NumLeapDays_def kNegBase4_def kNegBase100_def kNegBase400_def
        kEpochYearBase_def sdiv_neg_ceiling add.commute)
qed

lemma NumLeapDays_floor: "NumLeapDays y = leapsThrough (1969 + y) - 477"
proof -
  have "(1969 + y) div 4 = (y + 1) div 4 + 492"
    using div_shift[of 4 "y + 1" 492] by (simp add: add.commute)
  moreover have "(1969 + y) div 100 = (y + 69) div 100 + 19"
    using div_shift[of 100 "y + 69" 19] by (simp add: add.commute)
  moreover have "(1969 + y) div 400 = (y + 369) div 400 + 4"
    using div_shift[of 400 "y + 369" 4] by (simp add: add.commute)
  ultimately show ?thesis
    by (simp add: NumLeapDays_biased leapsThrough_def)
qed

lemma leapYearsBetween_leapsThrough:
  "a \<le> b \<Longrightarrow> leapYearsBetween a b = leapsThrough (b - 1) - leapsThrough (a - 1)"
proof (induction b rule: int_ge_induct)
  case base
  then show ?case by (simp add: leapYearsBetween_def)
next
  case (step i)
  have "[a..i + 1 - 1] = [a..i - 1] @ [i]"
    using step.hyps upto_rec2[of a i] by simp
  then have "leapYearsBetween a (i + 1) =
             leapYearsBetween a i + (if gregorianLeap i then 1 else 0)"
    by (simp add: leapYearsBetween_def)
  then show ?case using step.IH leapsThrough_step[of "i - 1"] by simp
qed

lemma leapYearsBetween_card:
  "leapYearsBetween a b = int (card {Y. a \<le> Y \<and> Y < b \<and> gregorianLeap Y})"
proof -
  have s: "{Y. a \<le> Y \<and> Y < b \<and> gregorianLeap Y} = set (filter gregorianLeap [a..b - 1])"
    by auto
  have "card (set (filter gregorianLeap [a..b - 1])) = length (filter gregorianLeap [a..b - 1])"
    by (rule distinct_card) simp
  then show ?thesis
    unfolding leapYearsBetween_def s by simp
qed

lemma leapsThrough_1969: "leapsThrough 1969 = 477"
  by (simp add: leapsThrough_def)

text \<open>
  Claim C1. For every integer \<open>y\<close>, \<open>NumLeapDays y\<close> is the number of Gregorian leap years
  \<open>Y\<close> with \<open>1970 \<le> Y < 1970 + y\<close> when \<open>y\<close> is not negative, and the negation of the
  number of those with \<open>1970 + y \<le> Y < 1970\<close> when it is; and it is
  \<open>(1969 + y) div 4 - (1969 + y) div 100 + (1969 + y) div 400 - 477\<close> with the division
  that rounds down, although the code divides with truncation.
\<close>

theorem NumLeapDays_counts_leap_years:
  "NumLeapDays y =
     (if 0 \<le> y then int (card {Y. 1970 \<le> Y \<and> Y < 1970 + y \<and> gregorianLeap Y})
      else - int (card {Y. 1970 + y \<le> Y \<and> Y < 1970 \<and> gregorianLeap Y}))
   \<and> NumLeapDays y = (1969 + y) div 4 - (1969 + y) div 100 + (1969 + y) div 400 - 477"
proof -
  have "NumLeapDays y = leapYearsBetween 1970 (1970 + y)" if "0 \<le> y"
    using that leapYearsBetween_leapsThrough[of 1970 "1970 + y"]
    by (simp add: NumLeapDays_floor leapsThrough_1969)
  moreover have "NumLeapDays y = - leapYearsBetween (1970 + y) 1970" if "\<not> 0 \<le> y"
    using that leapYearsBetween_leapsThrough[of "1970 + y" 1970]
    by (simp add: NumLeapDays_floor leapsThrough_1969)
  ultimately show ?thesis
    using NumLeapDays_floor[of y]
    by (simp add: leapYearsBetween_card leapsThrough_def)
qed

text \<open>The years 1970 to 1979 hold the leap years 1972 and 1976; 1960 to 1969 hold 1960, 1964 and 1968.\<close>

theorem NumLeapDays_counts_leap_years_witness:
  "NumLeapDays 10 = 2 \<and> NumLeapDays (- 10) = - 3
   \<and> int (card {Y. 1970 \<le> Y \<and> Y < 1970 + 10 \<and> gregorianLeap Y}) = 2
   \<and> int (card {Y. 1970 + (- 10) \<le> Y \<and> Y < 1970 \<and> gregorianLeap Y}) = 3"
  using NumLeapDays_counts_leap_years[of 10] NumLeapDays_counts_leap_years[of "- 10"]
  by simp

subsection \<open>Boundary values of \<open>civilToEpoch\<close>\<close>

lemmas time_consts = kSecondsInMinute_def kMinutesInHour_def kHoursInDay_def kDaysInYear_def
  kSecondsInHour_def kSecondsInDay_def kSecondsInYear_def kEpochYearBase_def kTMYearBase_def

lemma NumLeapDays_values:
  "NumLeapDays (- 1) = 0" "NumLeapDays 0 = 0" "NumLeapDays 30 = 7" "NumLeapDays 48 = 12"
  by (simp_all add: NumLeapDays_floor leapsThrough_def)

lemma IsLeapYear_values:
  "\<not> IsLeapYear 69" "\<not> IsLeapYear 70" "IsLeapYear 100" "\<not> IsLeapYear 118"
  using IsLeapYear_gregorianLeap[of 1969] IsLeapYear_gregorianLeap[of 1970]
    IsLeapYear_gregorianLeap[of 2000] IsLeapYear_gregorianLeap[of 2018]
  by (simp_all add: gregorianLeap_def)

text \<open>
  Claim C2. \<open>civilToEpoch\<close> of 1969-12-31 23:59:59 is \<open>-1\<close>, of 1970-01-01 00:00:00 it is
  \<open>0\<close>, and for any hour, minute and second its value on 2000-03-01 less its value on
  2000-02-29 is 86400.
\<close>

theorem civilToEpoch_boundaries:
  "civilToEpoch \<lparr>year = 1969, month = 12, day = 31, hour = 23, minute = 59, second = 59\<rparr>
     = Inr (- 1)
   \<and> civilToEpoch \<lparr>year = 1970, month = 1, day = 1, hour = 0, minute = 0, second = 0\<rparr> = Inr 0
   \<and> (\<exists>a b. civilToEpoch \<lparr>year = 2000, month = 3, day = 1, hour = h, minute = mi, second = s\<rparr>
             = Inr a
           \<and> civilToEpoch \<lparr>year = 2000, month = 2, day = 29, hour = h, minute = mi, second = s\<rparr>
             = Inr b
           \<and> a - b = 86400)"
  by (simp add: civilToEpoch_def structTm_def timegmCustom_def arrayRead_def time_consts
      NumLeapDays_values IsLeapYear_values kDaysUptoMonth_def kDaysUptoMonthLeapYear_def)

theorem civilToEpoch_boundaries_witness:
  "\<exists>a b. civilToEpoch \<lparr>year = 2000, month = 3, day = 1, hour = 12, minute = 30, second = 15\<rparr>
            = Inr a
         \<and> civilToEpoch \<lparr>year = 2000, month = 2, day = 29, hour = 12, minute = 30, second = 15\<rparr>
            = Inr b
         \<and> a - b = 86400"
  using civilToEpoch_boundaries[of 12 30 15] by simp

subsection \<open>The parser\<close>

lemmas layout_consts =
  ENCODED_TIME_STRING_YEAR_STRING_LENGTH_def ENCODED_TIME_STRING_MONTH_STRING_LENGTH_def
  ENCODED_TIME_STRING_DAY_STRING_LENGTH_def ENCODED_TIME_STRING_HOUR_STRING_LENGTH_def
  ENCODED_TIME_STRING_MINUTE_STRING_LENGTH_def ENCODED_TIME_STRING_SECOND_STRING_LENGTH_def
  ENCODED_TIME_STRING_POSTFIX_STRING_LENGTH_def ENCODED_TIME_STRING_DASH_SEPARATOR_STRING_def
  ENCODED_TIME_STRING_T_SEPARATOR_STRING_def ENCODED_TIME_STRING_COLON_SEPARATOR_STRING_def
  ENCODED_TIME_STRING_PLUS_SEPARATOR_STRING_def ENCODED_TIME_STRING_YEAR_OFFSET_def
  ENCODED_TIME_STRING_MONTH_OFFSET_def ENCODED_TIME_STRING_DAY_OFFSET_def
  ENCODED_TIME_STRING_HOUR_OFFSET_def ENCODED_TIME_STRING_MINUTE_OFFSET_def
  ENCODED_TIME_STRING_SECOND_OFFSET_def ENCODED_TIME_STRING_EXPECTED_LENGTH_def

lemma layout_values:
  "ENCODED_TIME_STRING_YEAR_OFFSET = 0" "ENCODED_TIME_STRING_MONTH_OFFSET = 5"
  "ENCODED_TIME_STRING_DAY_OFFSET = 8" "ENCODED_TIME_STRING_HOUR_OFFSET = 11"
  "ENCODED_TIME_STRING_MINUTE_OFFSET = 14" "ENCODED_TIME_STRING_SECOND_OFFSET = 17"
  "ENCODED_TIME_STRING_EXPECTED_LENGTH = 24"
  by (simp_all add: layout_consts)

lemma layout_lengths:
  "ENCODED_TIME_STRING_YEAR_STRING_LENGTH = 4" "ENCODED_TIME_STRING_MONTH_STRING_LENGTH = 2"
  "ENCODED_TIME_STRING_DAY_STRING_LENGTH = 2" "ENCODED_TIME_STRING_HOUR_STRING_LENGTH = 2"
  "ENCODED_TIME_STRING_MINUTE_STRING_LENGTH = 2" "ENCODED_TIME_STRING_SECOND_STRING_LENGTH = 2"
  by (simp_all add: layout_consts)

text \<open>The parser once its six fields have been converted: it is \<open>civilToEpoch\<close> of them.\<close>

lemma convert8601_fields:
  assumes "length s = 24"
    and "stringToInt (substr s 0 4) = Some y" and "stringToInt (substr s 5 2) = Some mo"
    and "stringToInt (substr s 8 2) = Some d" and "stringToInt (substr s 11 2) = Some h"
    and "stringToInt (substr s 14 2) = Some mi" and "stringToInt (substr s 17 2) = Some sec"
  shows "convert8601TimeStringToUnix stringToInt s ValidPtr =
           (case civilToEpoch
                   \<lparr>year = y, month = mo, day = d, hour = h, minute = mi, second = sec\<rparr> of
              Inl f \<Rightarrow> Inl f
            | Inr e \<Rightarrow> Inr \<lparr>returned = True, written = Some e, logged = []\<rparr>)"
  using assms
  by (simp add: convert8601TimeStringToUnix_def layout_values layout_lengths
      convertToUtcTimeT_def civilToEpoch_def structTm_def split: sum.splits)

lemma timegmCustom_in_range:
  assumes "0 \<le> tm_mon t" "tm_mon t \<le> 11"
  shows "\<exists>e. timegmCustom t = Inr e"
  using assms
  by (simp add: timegmCustom_def arrayRead_def kDaysUptoMonth_def kDaysUptoMonthLeapYear_def
      Let_def)

lemma stringToIntDigits_values:
  "stringToIntDigits ''2018'' = Some 2018" "stringToIntDigits ''01'' = Some 1"
  "stringToIntDigits ''02'' = Some 2" "stringToIntDigits ''03'' = Some 3"
  "stringToIntDigits ''04'' = Some 4" "stringToIntDigits ''05'' = Some 5"
  "stringToIntDigits ''13'' = Some 13" "stringToIntDigits ''30'' = Some 30"
  "stringToIntDigits ''25'' = Some 25" "stringToIntDigits ''61'' = Some 61"
  "stringToIntDigits ''20x8'' = None"
  by (simp_all add: stringToIntDigits_def isDigit_def digitValue_def)

lemma civilToEpoch_2018:
  "civilToEpoch \<lparr>year = 2018, month = 1, day = 2, hour = 3, minute = 4, second = 5\<rparr>
     = Inr 1514862245"
  by (simp add: civilToEpoch_def structTm_def timegmCustom_def arrayRead_def time_consts
      NumLeapDays_values IsLeapYear_values kDaysUptoMonth_def)

text \<open>
  Claim C6, as the code has it. For every input string whose length is not 24 (the sum of
  the field widths 4, 2, 2, 2, 2 and 2, of the postfix width 4 and of the six separators
  of one character), \<^verbatim>\<open>convert8601TimeStringToUnix\<close> with a valid output pointer fails
  with the length error, whatever \<^verbatim>\<open>stringToInt\<close> is: no field is extracted. The string
  \<^verbatim>\<open>2018-01-01T00:00:00+000\<close>, one character short, fails so.
\<close>

theorem convert8601_length_error:
  "(length s \<noteq> 24 \<longrightarrow>
      convert8601TimeStringToUnix stringToInt s ValidPtr =
        Inr \<lparr>returned = False, written = None,
             logged = [LogD ''convert8601TimeStringToUnixFailed''
                         ''unexpected time string length:'' (length s)]\<rparr>)
   \<and> ENCODED_TIME_STRING_EXPECTED_LENGTH = 4 + 2 + 2 + 2 + 2 + 2 + 4 + 6
   \<and> convert8601TimeStringToUnix stringToInt ''2018-01-01T00:00:00+000'' ValidPtr =
        Inr \<lparr>returned = False, written = None,
             logged = [LogD ''convert8601TimeStringToUnixFailed''
                         ''unexpected time string length:'' 23]\<rparr>"
  by (simp add: convert8601TimeStringToUnix_def layout_values)

theorem convert8601_length_error_witness:
  "length ''2018-01-01'' \<noteq> 24 \<and>
   convert8601TimeStringToUnix stringToIntDigits ''2018-01-01'' ValidPtr =
        Inr \<lparr>returned = False, written = None,
             logged = [LogD ''convert8601TimeStringToUnixFailed''
                         ''unexpected time string length:'' 10]\<rparr>"
  using convert8601_length_error[of "''2018-01-01''" stringToIntDigits] by simp

text \<open>
  The claim as it was written counts five separators, which with the field widths and the
  postfix make 23, and it names no pointer: with a null output pointer the string that is
  one character short fails with the null pointer error, the length unchecked.
\<close>

theorem convert8601_length_error_counterexample:
  "ENCODED_TIME_STRING_EXPECTED_LENGTH \<noteq> 4 + 2 + 2 + 2 + 2 + 2 + 4 + 5
   \<and> length ''2018-01-01T00:00:00+000'' \<noteq> 24
   \<and> convert8601TimeStringToUnix stringToIntDigits ''2018-01-01T00:00:00+000'' NullPtr =
        Inr \<lparr>returned = False, written = None,
             logged = [LogM ''convert8601TimeStringToUnixFailed''
                         ''convertedTime parameter was nullptr.'']\<rparr>"
  by (simp add: convert8601TimeStringToUnix_def layout_values parseFailed_def)

text \<open>
  With the month field from 1 to 12 the parser succeeds and writes the value of
  \<open>civilToEpoch\<close> on the six values; the year, day, hour, minute and second are not
  checked against any range. The string \<^verbatim>\<open>2018-01-02T03:04:05+0000\<close> yields
  \<open>civilToEpoch\<close> of (2018, 1, 2, 3, 4, 5).
\<close>

theorem convert8601_writes_civilToEpoch:
  assumes "length s = 24"
    and "stringToInt (substr s 0 4) = Some y" and "stringToInt (substr s 5 2) = Some mo"
    and "stringToInt (substr s 8 2) = Some d" and "stringToInt (substr s 11 2) = Some h"
    and "stringToInt (substr s 14 2) = Some mi" and "stringToInt (substr s 17 2) = Some sec"
    and "1 \<le> mo" and "mo \<le> 12"
  shows "(\<exists>e. convert8601TimeStringToUnix stringToInt s ValidPtr =
               Inr \<lparr>returned = True, written = Some e, logged = []\<rparr>
            \<and> civilToEpoch
                 \<lparr>year = y, month = mo, day = d, hour = h, minute = mi, second = sec\<rparr> = Inr e)
         \<and> convert8601TimeStringToUnix stringToIntDigits ''2018-01-02T03:04:05+0000'' ValidPtr =
               Inr \<lparr>returned = True, written = Some 1514862245, logged = []\<rparr>
         \<and> civilToEpoch \<lparr>year = 2018, month = 1, day = 2, hour = 3, minute = 4, second = 5\<rparr> =
               Inr 1514862245"
proof -
  obtain e where e:
    "civilToEpoch \<lparr>year = y, month = mo, day = d, hour = h, minute = mi, second = sec\<rparr> = Inr e"
    using timegmCustom_in_range[of
        "structTm \<lparr>year = y, month = mo, day = d, hour = h, minute = mi, second = sec\<rparr>"]
      assms(8,9)
    by (auto simp add: civilToEpoch_def structTm_def)
  have "convert8601TimeStringToUnix stringToInt s ValidPtr =
          Inr \<lparr>returned = True, written = Some e, logged = []\<rparr>"
    using convert8601_fields[OF assms(1-7)] e by simp
  moreover have
    "convert8601TimeStringToUnix stringToIntDigits ''2018-01-02T03:04:05+0000'' ValidPtr =
       Inr \<lparr>returned = True, written = Some 1514862245, logged = []\<rparr>"
    using convert8601_fields[of "''2018-01-02T03:04:05+0000''" stringToIntDigits 2018 1 2 3 4 5]
    by (simp add: substr_def stringToIntDigits_values civilToEpoch_2018)
  ultimately show ?thesis using e civilToEpoch_2018 by simp
qed

text \<open>The 30th of February at 25:61:61 is taken as it comes.\<close>

theorem convert8601_writes_civilToEpoch_witness:
  "length ''2018-02-30T25:61:61+0000'' = 24
   \<and> stringToIntDigits (substr ''2018-02-30T25:61:61+0000'' 0 4) = Some 2018
   \<and> stringToIntDigits (substr ''2018-02-30T25:61:61+0000'' 5 2) = Some 2
   \<and> stringToIntDigits (substr ''2018-02-30T25:61:61+0000'' 8 2) = Some 30
   \<and> stringToIntDigits (substr ''2018-02-30T25:61:61+0000'' 11 2) = Some 25
   \<and> stringToIntDigits (substr ''2018-02-30T25:61:61+0000'' 14 2) = Some 61
   \<and> stringToIntDigits (substr ''2018-02-30T25:61:61+0000'' 17 2) = Some 61
   \<and> (1::int) \<le> 2 \<and> (2::int) \<le> 12
   \<and> (\<exists>e. convert8601TimeStringToUnix stringToIntDigits ''2018-02-30T25:61:61+0000'' ValidPtr =
               Inr \<lparr>returned = True, written = Some e, logged = []\<rparr>
            \<and> civilToEpoch
                 \<lparr>year = 2018, month = 2, day = 30, hour = 25, minute = 61, second = 61\<rparr> = Inr e)"
  using convert8601_writes_civilToEpoch[of "''2018-02-30T25:61:61+0000''" stringToIntDigits
      2018 2 30 25 61 61]
  by (simp add: substr_def stringToIntDigits_values)

text \<open>
  Claim C5. For every input string of length 24 whose six fields convert to integers,
  \<^verbatim>\<open>convert8601TimeStringToUnix\<close> with a valid output pointer is to succeed and to write
  the value of \<open>civilToEpoch\<close> on the six values, no field checked against a range. The
  code falls short of it: on \<^verbatim>\<open>2018-13-02T03:04:05+0000\<close> all six fields convert, the
  month to 13, and \<^verbatim>\<open>timegmCustom\<close> reads \<^verbatim>\<open>kDaysUptoMonth[12]\<close>, past the twelve entries
  of the table, so that the call has no defined result.
\<close>

theorem convert8601_month_13_reads_past_table:
  "length ''2018-13-02T03:04:05+0000'' = 24
   \<and> stringToIntDigits (substr ''2018-13-02T03:04:05+0000'' 0 4) = Some 2018
   \<and> stringToIntDigits (substr ''2018-13-02T03:04:05+0000'' 5 2) = Some 13
   \<and> stringToIntDigits (substr ''2018-13-02T03:04:05+0000'' 8 2) = Some 2
   \<and> stringToIntDigits (substr ''2018-13-02T03:04:05+0000'' 11 2) = Some 3
   \<and> stringToIntDigits (substr ''2018-13-02T03:04:05+0000'' 14 2) = Some 4
   \<and> stringToIntDigits (substr ''2018-13-02T03:04:05+0000'' 17 2) = Some 5
   \<and> convert8601TimeStringToUnix stringToIntDigits ''2018-13-02T03:04:05+0000'' ValidPtr =
        Inl ArrayIndexOutOfRange
   \<and> civilToEpoch \<lparr>year = 2018, month = 13, day = 2, hour = 3, minute = 4, second = 5\<rparr> =
        Inl ArrayIndexOutOfRange"
proof -
  have c: "civilToEpoch \<lparr>year = 2018, month = 13, day = 2, hour = 3, minute = 4, second = 5\<rparr> =
        Inl ArrayIndexOutOfRange"
    by (simp add: civilToEpoch_def structTm_def timegmCustom_def arrayRead_def IsLeapYear_values
        kDaysUptoMonth_def Let_def)
  show ?thesis
    using convert8601_fields[of "''2018-13-02T03:04:05+0000''" stringToIntDigits 2018 13 2 3 4 5] c
    by (simp add: substr_def stringToIntDigits_values)
qed

lemma substr_nth:
  "pos + len \<le> length s \<Longrightarrow> substr s pos len = map (\<lambda>i. s ! (pos + i)) [0..<len]"
  by (simp add: substr_def list_eq_iff_nth_eq)

text \<open>
  Claim C9. Two input strings of length 24 that agree on the positions of the six fields
  (0 to 3, 5 and 6, 8 and 9, 11 and 12, 14 and 15, 17 and 18) give the same outcome and, on
  success, the same written value: every other position (4, 7, 10, 13, 16, 19 and 20 to
  23) may hold any character.
\<close>

theorem convert8601_reads_fields_only:
  assumes "length s1 = 24" and "length s2 = 24"
    and "\<forall>i \<in> {0, 1, 2, 3, 5, 6, 8, 9, 11, 12, 14, 15, 17, 18}. s1 ! i = s2 ! i"
  shows "observable (convert8601TimeStringToUnix stringToInt s1 out) =
         observable (convert8601TimeStringToUnix stringToInt s2 out)"
proof -
  have "substr s1 0 4 = substr s2 0 4" "substr s1 5 2 = substr s2 5 2"
    "substr s1 8 2 = substr s2 8 2" "substr s1 11 2 = substr s2 11 2"
    "substr s1 14 2 = substr s2 14 2" "substr s1 17 2 = substr s2 17 2"
    using assms by (simp_all add: substr_nth upt_rec numeral_nat)
  then show ?thesis
    using assms(1,2)
    by (simp add: convert8601TimeStringToUnix_def layout_values layout_lengths observable_def
        parseFailed_def split: option.splits sum.splits)
qed

theorem convert8601_reads_fields_only_witness:
  "length ''2018-01-02T03:04:05+0000'' = 24 \<and> length ''2018x01y02z03w04v05qabcd'' = 24
   \<and> observable
        (convert8601TimeStringToUnix stringToIntDigits ''2018x01y02z03w04v05qabcd'' ValidPtr) =
      observable
        (convert8601TimeStringToUnix stringToIntDigits ''2018-01-02T03:04:05+0000'' ValidPtr)"
  using convert8601_reads_fields_only[of "''2018-01-02T03:04:05+0000''"
      "''2018x01y02z03w04v05qabcd''" stringToIntDigits ValidPtr]
  by simp

subsection \<open>The formatter\<close>

lemma digitChar_isDigit: "k < 10 \<Longrightarrow> isDigit (digitChar k)"
proof -
  assume "k < 10"
  then have "k \<in> {0, 1, 2, 3, 4, 5, 6, 7, 8, 9}" by auto
  then show ?thesis by (auto simp add: isDigit_def digitChar_def)
qed


lemma showNat_1: "n < 10 \<Longrightarrow> showNat n = [digitChar n]"
  by (simp add: showNat.simps)

lemma showNat_2:
  "10 \<le> n \<Longrightarrow> n < 100 \<Longrightarrow> showNat n = [digitChar (n div 10), digitChar (n mod 10)]"
  by (subst showNat.simps) (simp add: showNat_1)

lemma showNat_3:
  "100 \<le> n \<Longrightarrow> n < 1000 \<Longrightarrow>
   showNat n = [digitChar (n div 100), digitChar (n div 10 mod 10), digitChar (n mod 10)]"
  by (subst showNat.simps) (simp add: showNat_2 div_mult2_eq[symmetric])

lemma showNat_4:
  "1000 \<le> n \<Longrightarrow> n < 10000 \<Longrightarrow>
   showNat n = [digitChar (n div 1000), digitChar (n div 100 mod 10),
                digitChar (n div 10 mod 10), digitChar (n mod 10)]"
  by (subst showNat.simps) (simp add: showNat_3 div_mult2_eq[symmetric])

lemma threeDigits_of_nat:
  "threeDigits (int n) =
     [digitChar (n div 100 mod 10), digitChar (n div 10 mod 10), digitChar (n mod 10)]"
proof -
  have "int n div 100 mod 10 = int (n div 100 mod 10)"
    "int n div 10 mod 10 = int (n div 10 mod 10)" "int n mod 10 = int (n mod 10)"
    by (simp_all add: zdiv_int zmod_int)
  then show ?thesis
    by (simp only: threeDigits_def nat_int)
qed

lemma streamPut_threeDigits:
  assumes "0 \<le> r" "r < 1000"
  shows "streamPut 3 (CHR ''0'') r = threeDigits r"
proof -
  define n where "n = nat r"
  have r: "r = int n" and n: "n < 1000" using assms by (simp_all add: n_def)
  have d0: "digitChar 0 = CHR ''0''" by (simp add: digitChar_def)
  have s: "showInt (int n) = showNat n" by (simp add: showInt_def)
  consider "n < 10" | "10 \<le> n" "n < 100" | "100 \<le> n" "n < 1000" using n by linarith
  then show ?thesis
  proof cases
    case 1
    then show ?thesis
      unfolding r threeDigits_of_nat streamPut_def s
      by (simp add: showNat_1 d0 numeral_3_eq_3)
  next
    case 2
    then show ?thesis
      unfolding r threeDigits_of_nat streamPut_def s
      by (simp add: showNat_2 d0)
  next
    case 3
    then show ?thesis
      unfolding r threeDigits_of_nat streamPut_def s
      by (simp add: showNat_3)
  qed
qed


lemma threeDigits_digits: "0 \<le> r \<Longrightarrow> list_all isDigit (threeDigits r)"
  by (simp add: threeDigits_def digitChar_isDigit nat_less_iff)



lemma smod_nonneg: "0 \<le> (m::int) \<Longrightarrow> m smod 1000 = m mod 1000"
  by (simp add: smod_mod_positive)

lemma sdiv_mult_self: "0 < k \<Longrightarrow> (m * k) sdiv k = (m::int)"
  by (simp add: signed_divide_int_def sgn_mult abs_mult mult_sgn_abs)

lemma convertTime_success:
  assumes "tp sdiv ticksPerMs = m" "getGmtime (m sdiv 1000) = Some utcTm"
    and "strftime 28 ''%Y-%m-%dT%H:%M:%S'' utcTm = buf" "buf \<noteq> []"
  shows "convertTimeToUtcIso8601Rfc3339 getGmtime strftime ticksPerMs tp ValidPtr =
           Inr \<lparr>returned = True,
                written = Some (buf @ ''.'' @ streamPut 3 (CHR ''0'') (m smod 1000) @ ''Z''),
                logged = []\<rparr>"
  using assms by (simp add: convertTimeToUtcIso8601Rfc3339_def)

lemma epochToCivil_values:
  "epochToCivil 1001 = \<lparr>year = 1970, month = 1, day = 1, hour = 0, minute = 16, second = 41\<rparr>"
  "epochToCivil 1000 = \<lparr>year = 1970, month = 1, day = 1, hour = 0, minute = 16, second = 40\<rparr>"
  "epochToCivil (- 1) = \<lparr>year = 1969, month = 12, day = 31, hour = 23, minute = 59, second = 59\<rparr>"
  by code_simp+

lemma showInt_values:
  "showInt 1970 = ''1970''" "showInt 1969 = ''1969''" "showInt 1 = ''1''" "showInt 0 = ''0''"
  "showInt 16 = ''16''" "showInt 41 = ''41''" "showInt 40 = ''40''" "showInt 12 = ''12''"
  "showInt 31 = ''31''" "showInt 23 = ''23''" "showInt 59 = ''59''"
  "showInt (- 500) = ''-500''"
  by (simp_all add: showInt_def showNat_4 showNat_3 showNat_2 showNat_1 digitChar_def)

lemma streamPut_values:
  "streamPut 4 (CHR ''0'') 1970 = ''1970''" "streamPut 4 (CHR ''0'') 1969 = ''1969''"
  "streamPut 2 (CHR ''0'') 1 = ''01''"
  "streamPut 2 (CHR ''0'') 0 = ''00''" "streamPut 2 (CHR ''0'') 16 = ''16''"
  "streamPut 2 (CHR ''0'') 41 = ''41''" "streamPut 2 (CHR ''0'') 40 = ''40''"
  "streamPut 2 (CHR ''0'') 12 = ''12''" "streamPut 2 (CHR ''0'') 31 = ''31''"
  "streamPut 2 (CHR ''0'') 23 = ''23''" "streamPut 2 (CHR ''0'') 59 = ''59''"
  "streamPut 3 (CHR ''0'') (- 500) = ''-500''"
  by (simp_all add: streamPut_def showInt_values numeral_2_eq_2)

lemma stamp_values:
  "strftimeIso 28 ''%Y-%m-%dT%H:%M:%S'' (structTm (epochToCivil 1001)) = ''1970-01-01T00:16:41''"
  "strftimeIso 28 ''%Y-%m-%dT%H:%M:%S'' (structTm (epochToCivil 1000)) = ''1970-01-01T00:16:40''"
  "strftimeIso 28 ''%Y-%m-%dT%H:%M:%S'' (structTm (epochToCivil (- 1))) = ''1969-12-31T23:59:59''"
  by (simp_all add: strftimeIso_def epochToCivil_values structTm_def streamPut_values)

lemma threeDigits_values: "threeDigits 500 = ''500''" "threeDigits 5 = ''005''"
  by (simp_all add: threeDigits_def digitChar_def)

lemma format_1001500:
  "convertTimeToUtcIso8601Rfc3339 getGmtimeUtc strftimeIso 1000000 1001500000000 ValidPtr =
     Inr \<lparr>returned = True, written = Some ''1970-01-01T00:16:41.500Z'', logged = []\<rparr>"
  using convertTime_success[of 1001500000000 1000000 1001500 getGmtimeUtc
      "structTm (epochToCivil 1001)" strftimeIso "''1970-01-01T00:16:41''"]
    streamPut_threeDigits[of 500]
  by (simp add: getGmtimeUtc_def stamp_values threeDigits_values)

lemma format_1000005:
  "convertTimeToUtcIso8601Rfc3339 getGmtimeUtc strftimeIso 1000000 1000005000000 ValidPtr =
     Inr \<lparr>returned = True, written = Some ''1970-01-01T00:16:40.005Z'', logged = []\<rparr>"
  using convertTime_success[of 1000005000000 1000000 1000005 getGmtimeUtc
      "structTm (epochToCivil 1000)" strftimeIso "''1970-01-01T00:16:40''"]
    streamPut_threeDigits[of 5]
  by (simp add: getGmtimeUtc_def stamp_values threeDigits_values)

lemma format_minus_1500:
  "convertTimeToUtcIso8601Rfc3339 getGmtimeUtc strftimeIso 1000000 (- 1500000000) ValidPtr =
     Inr \<lparr>returned = True, written = Some ''1969-12-31T23:59:59.-500Z'', logged = []\<rparr>"
  using convertTime_success[of "- 1500000000" 1000000 "- 1500" getGmtimeUtc
      "structTm (epochToCivil (- 1))" strftimeIso "''1969-12-31T23:59:59''"]
  by (simp add: getGmtimeUtc_def stamp_values streamPut_values)

text \<open>
  Claim C7, as the code has it. For a time point a whole number \<open>m \<ge> 0\<close> of milliseconds
  after the epoch, when the breakdown of the second \<open>m div 1000\<close> is available and its
  rendering is not empty, \<^verbatim>\<open>convertTimeToUtcIso8601Rfc3339\<close> writes the rendering followed
  by a dot, by \<open>m mod 1000\<close> as exactly three decimal digits and by \<^verbatim>\<open>Z\<close>. The instant
  1500 ms after the epoch second 1000 lies in the second 1001 and ends in \<^verbatim>\<open>:41.500Z\<close>;
  a remainder of 5 ms is rendered \<^verbatim>\<open>.005Z\<close>.
\<close>

theorem convertTime_millisecond_field:
  assumes "0 < ticksPerMs" and "0 \<le> m"
    and "getGmtime (m div 1000) = Some utcTm"
    and "strftime 28 ''%Y-%m-%dT%H:%M:%S'' utcTm = buf" and "buf \<noteq> []"
  shows "convertTimeToUtcIso8601Rfc3339 getGmtime strftime ticksPerMs (m * ticksPerMs) ValidPtr =
           Inr \<lparr>returned = True,
                written = Some (buf @ ''.'' @ threeDigits (m mod 1000) @ ''Z''),
                logged = []\<rparr>
         \<and> length (threeDigits (m mod 1000)) = 3
         \<and> list_all isDigit (threeDigits (m mod 1000))
         \<and> convertTimeToUtcIso8601Rfc3339 getGmtimeUtc strftimeIso 1000000 1001500000000 ValidPtr =
             Inr \<lparr>returned = True, written = Some ''1970-01-01T00:16:41.500Z'', logged = []\<rparr>
         \<and> convertTimeToUtcIso8601Rfc3339 getGmtimeUtc strftimeIso 1000000 1000005000000 ValidPtr =
             Inr \<lparr>returned = True, written = Some ''1970-01-01T00:16:40.005Z'', logged = []\<rparr>"
proof -
  have ms: "(m * ticksPerMs) sdiv ticksPerMs = m"
    using assms(1) by (rule sdiv_mult_self)
  have sec: "m sdiv 1000 = m div 1000"
    using assms(2) by (simp add: sdiv_pos)
  have r: "0 \<le> m mod 1000" "m mod 1000 < 1000" by simp_all
  have "streamPut 3 (CHR ''0'') (m smod 1000) = threeDigits (m mod 1000)"
    using streamPut_threeDigits[OF r] assms(2) by (simp add: smod_nonneg)
  then have "convertTimeToUtcIso8601Rfc3339 getGmtime strftime ticksPerMs (m * ticksPerMs) ValidPtr =
           Inr \<lparr>returned = True,
                written = Some (buf @ ''.'' @ threeDigits (m mod 1000) @ ''Z''),
                logged = []\<rparr>"
    using convertTime_success[OF ms, of getGmtime utcTm strftime buf] assms(3-5) sec by simp
  moreover have "length (threeDigits (m mod 1000)) = 3"
    by (simp add: threeDigits_def)
  moreover have "list_all isDigit (threeDigits (m mod 1000))"
    using r(1) by (rule threeDigits_digits)
  ultimately show ?thesis
    using format_1001500 format_1000005 by simp
qed

text \<open>The instant 500 ms after the epoch second 1000 is the one that ends in \<^verbatim>\<open>:40.500Z\<close>.\<close>

theorem convertTime_millisecond_field_witness:
  "convertTimeToUtcIso8601Rfc3339 getGmtimeUtc strftimeIso 1000000 (1000500 * 1000000) ValidPtr =
     Inr \<lparr>returned = True, written = Some ''1970-01-01T00:16:40.500Z'', logged = []\<rparr>"
  using convertTime_millisecond_field[of 1000000 1000500 getGmtimeUtc
      "structTm (epochToCivil 1000)" strftimeIso "''1970-01-01T00:16:40''"]
  by (simp add: getGmtimeUtc_def stamp_values threeDigits_values)

text \<open>The claim as it was written has the instant 1001.5 s end in \<^verbatim>\<open>:40.500Z\<close>.\<close>

theorem convertTime_millisecond_field_counterexample:
  "convertTimeToUtcIso8601Rfc3339 getGmtimeUtc strftimeIso 1000000 1001500000000 ValidPtr =
     Inr \<lparr>returned = True, written = Some ''1970-01-01T00:16:41.500Z'', logged = []\<rparr>
   \<and> \<not> suffix '':40.500Z'' ''1970-01-01T00:16:41.500Z''"
  using format_1001500 by (simp add: suffix_to_prefix)






subsection \<open>Output parameters on failure\<close>

lemma convert8601_failure_writes_nothing:
  assumes "convert8601TimeStringToUnix stringToInt s out = Inr r" "\<not> returned r"
  shows "written r = None"
  using assms
  by (auto simp add: convert8601TimeStringToUnix_def parseFailed_def convertToUtcTimeT_def
      split: if_splits option.splits sum.splits)

text \<open>
  Claim C8, as the code has it. Whenever \<^verbatim>\<open>convert8601TimeStringToUnix\<close>,
  \<^verbatim>\<open>convertToUtcTimeT\<close> or \<^verbatim>\<open>convertTimeToUtcIso8601Rfc3339\<close> returns false, it has written
  nothing through its output parameter. \<^verbatim>\<open>getCurrentUnixTime\<close> writes nothing when its
  pointer is null; with a valid pointer it stores the reading of the clock, whatever it
  is, and returns whether the reading is not negative.
\<close>

theorem failure_writes_nothing:
  "(convert8601TimeStringToUnix stringToInt s out = Inr r1 \<and> \<not> returned r1 \<longrightarrow> written r1 = None)
   \<and> (convertToUtcTimeT utcTm ret = Inr r2 \<and> \<not> returned r2 \<longrightarrow> written r2 = None)
   \<and> (convertTimeToUtcIso8601Rfc3339 getGmtime strftime ticksPerMs tp out3 = Inr r3
        \<and> \<not> returned r3 \<longrightarrow> written r3 = None)
   \<and> getCurrentUnixTime now NullPtr =
        \<lparr>returned = False, written = None,
         logged = [LogM ''getCurrentUnixTimeFailed'' ''currentTime parameter was nullptr.'']\<rparr>
   \<and> getCurrentUnixTime now ValidPtr = \<lparr>returned = (0 \<le> now), written = Some now, logged = []\<rparr>"
proof -
  have "written r2 = None" if "convertToUtcTimeT utcTm ret = Inr r2" "\<not> returned r2"
    using that
    by (auto simp add: convertToUtcTimeT_def split: if_splits option.splits sum.splits)
  moreover have "written r3 = None"
    if "convertTimeToUtcIso8601Rfc3339 getGmtime strftime ticksPerMs tp out3 = Inr r3"
      "\<not> returned r3"
    using that
    by (auto simp add: convertTimeToUtcIso8601Rfc3339_def Let_def
        split: if_splits option.splits)
  ultimately show ?thesis
    using convert8601_failure_writes_nothing[of stringToInt s out r1]
    by (simp add: getCurrentUnixTime_def)
qed

theorem failure_writes_nothing_witness:
  "convert8601TimeStringToUnix stringToIntDigits ''20x8-01-02T03:04:05+0000'' ValidPtr =
     Inr (parseFailed ''error parsing year. Input:20x8-01-02T03:04:05+0000'')
   \<and> \<not> returned (parseFailed ''error parsing year. Input:20x8-01-02T03:04:05+0000'')
   \<and> written (parseFailed ''error parsing year. Input:20x8-01-02T03:04:05+0000'') = None
   \<and> convertToUtcTimeT None NullPtr =
       Inr \<lparr>returned = False, written = None,
            logged = [LogM ''convertToUtcTimeT'' ''return variable is null'']\<rparr>
   \<and> convertTimeToUtcIso8601Rfc3339 (\<lambda>t. None) strftimeIso 1000000 0 ValidPtr =
       Inr \<lparr>returned = False, written = None,
            logged = [LogM ''convertTimeToUtcIso8601Rfc3339'' ''cannot retrieve tm struct'']\<rparr>"
  using failure_writes_nothing[of stringToIntDigits "''20x8-01-02T03:04:05+0000''" ValidPtr
      "parseFailed ''error parsing year. Input:20x8-01-02T03:04:05+0000''" None NullPtr
      "\<lparr>returned = False, written = None,
            logged = [LogM ''convertToUtcTimeT'' ''return variable is null'']\<rparr>"
      "\<lambda>t. None" strftimeIso 1000000 0 ValidPtr
      "\<lparr>returned = False, written = None,
            logged = [LogM ''convertTimeToUtcIso8601Rfc3339'' ''cannot retrieve tm struct'']\<rparr>" 0]
  by (simp add: convert8601TimeStringToUnix_def layout_values layout_lengths substr_def
      stringToIntDigits_values parseFailed_def convertToUtcTimeT_def
      convertTimeToUtcIso8601Rfc3339_def)

text \<open>A clock that reads one second before the epoch: false is returned, and \<open>-1\<close> is stored.\<close>

theorem failure_writes_nothing_counterexample:
  "returned (getCurrentUnixTime (- 1) ValidPtr) = False
   \<and> written (getCurrentUnixTime (- 1) ValidPtr) = Some (- 1)"
  by (simp add: getCurrentUnixTime_def)

subsection \<open>The round trip through the breakdown\<close>

text \<open>
  The year of the era from the day of the era: with \<open>yoe = 100 * C + 4 * q + r\<close> the day
  of the era is \<open>36524 * C + 1461 * q + 365 * r + doy\<close>, and the three quotients of the
  closed form are read off that sum.
\<close>

lemma year_of_era:
  fixes yoe doy :: int
  assumes y: "0 \<le> yoe" "yoe < 400" and d: "0 \<le> doy" "doy \<le> 365"
    and leap: "doy = 365 \<Longrightarrow> yoe mod 4 = 3 \<and> (yoe mod 100 \<noteq> 99 \<or> yoe = 399)"
    and doe: "doe = 365 * yoe + yoe div 4 - yoe div 100 + doy"
  shows "(doe - doe div 1460 + doe div 36524 - doe div 146096) div 365 = yoe"
    and "0 \<le> doe" and "doe < 146097"
proof -
  define C q r where "C = yoe div 100" and "q = yoe mod 100 div 4" and "r = yoe mod 4"
  have r4: "yoe mod 100 mod 4 = yoe mod 4"
    using mod_mod_cancel[of 4 100 yoe] by simp
  have e1: "yoe = 100 * C + yoe mod 100" by (simp add: C_def)
  have e2: "yoe mod 100 = 4 * q + r"
    using mult_div_mod_eq[of 4 "yoe mod 100"] r4 by (simp add: q_def r_def)
  have yoe: "yoe = 100 * C + 4 * q + r" using e1 e2 by simp
  have rb: "0 \<le> r" "r \<le> 3" by (simp_all add: r_def)
  have mb: "0 \<le> yoe mod 100" "yoe mod 100 < 100" by simp_all
  have qb: "0 \<le> q" "q \<le> 24" using e2 mb rb by linarith+
  have Cb: "0 \<le> C" "C \<le> 3" using e1 mb y by linarith+
  have d4: "yoe div 4 = 25 * C + q"
    by (rule div_between) (use yoe rb in \<open>simp_all add: algebra_simps\<close>)
  have c100: "yoe div 100 = C" by (simp add: C_def)
  have "doe = 365 * yoe + (25 * C + q) - C + doy"
    unfolding doe d4 c100 by (rule refl)
  then have doe': "doe = 36524 * C + 1461 * q + 365 * r + doy"
    using yoe by linarith
  have l: "doy = 365 \<Longrightarrow> r = 3 \<and> (q \<noteq> 24 \<or> C = 3)"
    using leap e2 yoe rb qb Cb unfolding r_def[symmetric] by auto
  show "0 \<le> doe" using doe' Cb qb rb d by linarith
  show "doe < 146097" using doe' Cb qb rb d by linarith
  define sp where "sp = (if doe = 146096 then 1 else (0::int))"
  have sp_iff: "doe = 146096 \<longleftrightarrow> (C = 3 \<and> q = 24 \<and> r = 3 \<and> doy = 365)"
    using doe' Cb qb rb d l by auto
  have a: "doe div 146096 = sp"
    by (rule div_between) (use doe' Cb qb rb d in \<open>auto simp add: sp_def algebra_simps\<close>)
  have rest: "1461 * q + 365 * r + doy < 36524 \<or> doe = 146096"
    using sp_iff qb rb d l by (cases "doy = 365") auto
  have b: "doe div 36524 = C + sp"
    by (rule div_between) (use doe' Cb qb rb d rest sp_iff in \<open>auto simp add: sp_def algebra_simps\<close>)
  define e where "e = (if 1460 \<le> 24 * C + q + 365 * r + doy then 1 else (0::int))"
  have c: "doe div 1460 = 25 * C + q + e"
    by (rule div_between) (use doe' Cb qb rb d in \<open>auto simp add: e_def algebra_simps\<close>)
  have "doe - doe div 1460 + doe div 36524 - doe div 146096 = 365 * yoe + (doy - e)"
    using a b c doe' yoe by simp
  moreover have "0 \<le> doy - e" "doy - e < 365"
    using Cb qb rb d l by (cases "doy = 365"; auto simp add: e_def)+
  ultimately show "(doe - doe div 1460 + doe div 36524 - doe div 146096) div 365 = yoe"
    using div_between[of 365 yoe "365 * yoe + (doy - e)"] by simp
qed

lemma month_cases:
  assumes "1 \<le> (m::int)" "m \<le> 12"
  shows "m = 1 \<or> m = 2 \<or> m = 3 \<or> m = 4 \<or> m = 5 \<or> m = 6 \<or> m = 7 \<or> m = 8 \<or> m = 9
         \<or> m = 10 \<or> m = 11 \<or> m = 12"
  using assms by arith

text \<open>The days before a month, as \<^verbatim>\<open>timegmCustom\<close> reads them from its two tables.\<close>

lemma daysUpto_read:
  assumes "1 \<le> m" "m \<le> 12"
  shows "arrayRead (if IsLeapYear (y - 1900) then kDaysUptoMonthLeapYear else kDaysUptoMonth)
           (m - 1) =
         Inr ((153 * (if m \<le> 2 then m + 9 else m - 3) + 2) div 5
              + (if m \<le> 2 then - 306 else 59)
              + (if gregorianLeap y \<and> 3 \<le> m then 1 else 0))"
  using month_cases[OF assms]
  by (auto simp add: arrayRead_def IsLeapYear_gregorianLeap kDaysUptoMonth_def
      kDaysUptoMonthLeapYear_def)


text \<open>The day number of \<^verbatim>\<open>timegmCustom\<close>, counted in years that begin in March.\<close>

lemma day_number_march:
  assumes "1 \<le> m" "m \<le> 12"
  shows "365 * (y - 1970) + NumLeapDays (y - 1970)
           + ((153 * (if m \<le> 2 then m + 9 else m - 3) + 2) div 5
              + (if m \<le> 2 then - 306 else 59)
              + (if gregorianLeap y \<and> 3 \<le> m then 1 else 0))
           + (d - 1) + 719468 =
         365 * (if m \<le> 2 then y - 1 else y) + leapsThrough (if m \<le> 2 then y - 1 else y)
           + ((153 * (if m \<le> 2 then m + 9 else m - 3) + 2) div 5 + d - 1)"
proof -
  have n: "NumLeapDays (y - 1970) = leapsThrough (y - 1) - 477"
    using NumLeapDays_floor[of "y - 1970"] by simp
  have s: "leapsThrough y = leapsThrough (y - 1) + (if gregorianLeap y then 1 else 0)"
    using leapsThrough_step[of "y - 1"] by simp
  show ?thesis
    unfolding n using s by (cases "m \<le> 2") auto
qed

lemma succ_mod_zero_iff:
  assumes "0 < k"
  shows "(((n::int) + 1) mod k = 0) = (n mod k = k - 1)"
proof -
  have b: "0 \<le> n mod k" "n mod k < k" using assms by simp_all
  have e: "(n + 1) mod k = (n mod k + 1) mod k"
    by (simp add: mod_add_left_eq)
  show ?thesis
  proof (cases "n mod k = k - 1")
    case True
    then show ?thesis using e by simp
  next
    case False
    then have "n mod k + 1 < k" using b by linarith
    then have "(n mod k + 1) mod k = n mod k + 1"
      using b by simp
    then show ?thesis using e b False by simp
  qed
qed

lemma month_of_doy:
  assumes "1 \<le> m" "m \<le> 12" "1 \<le> d" "d \<le> daysInMonth y m"
    and "mp = (if m \<le> 2 then m + 9 else m - 3)"
    and "doy = (153 * mp + 2) div 5 + d - 1"
  shows "(5 * doy + 2) div 153 = mp" and "0 \<le> doy" and "doy \<le> 365"
    and "doy = 365 \<Longrightarrow> m = 2 \<and> gregorianLeap y"
proof -
  have c: "m = 1 \<or> m = 2 \<or> m = 3 \<or> m = 4 \<or> m = 5 \<or> m = 6 \<or> m = 7 \<or> m = 8 \<or> m = 9
         \<or> m = 10 \<or> m = 11 \<or> m = 12"
    using month_cases[OF assms(1,2)] .
  show "(5 * doy + 2) div 153 = mp"
    by (rule div_between)
      (use c assms(3-6) in \<open>auto simp add: daysInMonth_def split: if_splits\<close>)
  show "0 \<le> doy"
    using c assms(3-6) by (auto simp add: daysInMonth_def split: if_splits)
  show "doy \<le> 365"
    using c assms(3-6) by (auto simp add: daysInMonth_def split: if_splits)
  show "m = 2 \<and> gregorianLeap y" if "doy = 365"
    using that c assms(3-6) by (auto simp add: daysInMonth_def split: if_splits)
qed

lemma civilFromDays_march:
  assumes z: "days + 719468 = 146097 * era + doe" and "0 \<le> doe" and "doe < 146097"
    and yoe: "(doe - doe div 1460 + doe div 36524 - doe div 146096) div 365 = yoe"
    and doy: "doe - (365 * yoe + yoe div 4 - yoe div 100) = doy"
    and mp: "(5 * doy + 2) div 153 = mp"
  shows "civilFromDays days =
           (if (if mp < 10 then mp + 3 else mp - 9) \<le> 2 then yoe + era * 400 + 1
            else yoe + era * 400,
            if mp < 10 then mp + 3 else mp - 9,
            doy - (153 * mp + 2) div 5 + 1)"
proof -
  have 1: "(days + 719468) div 146097 = era"
    by (rule div_between) (use assms(1-3) in simp_all)
  have 2: "days + 719468 - era * 146097 = doe"
    using z by simp
  show ?thesis
    unfolding civilFromDays_def Let_def 1 2 yoe doy mp by simp
qed

lemma civilFromDays_day_number:
  assumes m: "1 \<le> m" "m \<le> 12" and d: "1 \<le> d" "d \<le> daysInMonth y m"
  shows "civilFromDays
           (365 * (y - 1970) + NumLeapDays (y - 1970)
            + ((153 * (if m \<le> 2 then m + 9 else m - 3) + 2) div 5
               + (if m \<le> 2 then - 306 else 59)
               + (if gregorianLeap y \<and> 3 \<le> m then 1 else 0))
            + (d - 1)) = (y, m, d)"
    (is "civilFromDays ?D = _")
proof -
  define y' where "y' = (if m \<le> 2 then y - 1 else y)"
  define mp where "mp = (if m \<le> 2 then m + 9 else m - 3)"
  define doy where "doy = (153 * mp + 2) div 5 + d - 1"
  define era where "era = y' div 400"
  define yoe where "yoe = y' mod 400"
  define doe where "doe = 365 * yoe + yoe div 4 - yoe div 100 + doy"
  have A: "?D + 719468 = 365 * y' + leapsThrough y' + doy"
    using day_number_march[OF m, of y d] by (simp add: y'_def mp_def doy_def)
  have y': "y' = yoe + 400 * era" by (simp add: era_def yoe_def)
  have yb: "0 \<le> yoe" "yoe < 400" by (simp_all add: yoe_def)
  have d4: "y' div 4 = yoe div 4 + 100 * era"
    unfolding y' using div_shift[of 4 yoe "100 * era"] by simp
  have d100: "y' div 100 = yoe div 100 + 4 * era"
    unfolding y' using div_shift[of 100 yoe "4 * era"] by simp
  have d400: "y' div 400 = era" by (simp add: era_def)
  have L: "leapsThrough y' = 97 * era + yoe div 4 - yoe div 100"
    unfolding leapsThrough_def d4 d100 d400 by simp
  have z: "?D + 719468 = 146097 * era + doe"
    unfolding A L doe_def using y' by simp
  note md = month_of_doy[OF m d mp_def doy_def]
  have m4: "yoe mod 4 = y' mod 4" and m100: "yoe mod 100 = y' mod 100"
    using mod_mod_cancel[of 4 400 y'] mod_mod_cancel[of 100 400 y'] by (simp_all add: yoe_def)
  have leap: "yoe mod 4 = 3 \<and> (yoe mod 100 \<noteq> 99 \<or> yoe = 399)" if "doy = 365"
  proof -
    have "m = 2" and g: "gregorianLeap y" using md(4)[OF that] by simp_all
    then have y: "y = y' + 1" by (simp add: y'_def)
    have "y' mod 4 = 3" "y' mod 100 \<noteq> 99 \<or> y' mod 400 = 399"
      using g succ_mod_zero_iff[of 4 y'] succ_mod_zero_iff[of 100 y'] succ_mod_zero_iff[of 400 y']
      unfolding gregorianLeap_def y by simp_all
    then show ?thesis using m4 m100 by (simp add: yoe_def)
  qed
  note ye = year_of_era[OF yb md(2,3) leap doe_def]
  have doy': "doe - (365 * yoe + yoe div 4 - yoe div 100) = doy"
    by (simp add: doe_def)
  have r: "civilFromDays ?D =
           (if (if mp < 10 then mp + 3 else mp - 9) \<le> 2 then yoe + era * 400 + 1
            else yoe + era * 400,
            if mp < 10 then mp + 3 else mp - 9,
            doy - (153 * mp + 2) div 5 + 1)"
    by (rule civilFromDays_march[OF z ye(2,3) ye(1) doy' md(1)])
  have m': "(if mp < 10 then mp + 3 else mp - 9) = m"
    using m by (auto simp add: mp_def)
  have d': "doy - (153 * mp + 2) div 5 + 1 = d"
    by (simp add: doy_def)
  have yy: "(if m \<le> 2 then yoe + era * 400 + 1 else yoe + era * 400) = y"
  proof (cases "m \<le> 2")
    case True
    then have "y' = y - 1" by (simp add: y'_def)
    then show ?thesis using True y' by simp
  next
    case False
    then have "y' = y" by (simp add: y'_def)
    then show ?thesis using False y' by simp
  qed
  show ?thesis
    unfolding r m' d' yy by (rule refl)
qed

lemma timegmCustom_day_number:
  assumes "1 \<le> month c" "month c \<le> 12"
  shows "civilToEpoch c =
           Inr (86400 *
                  (365 * (year c - 1970) + NumLeapDays (year c - 1970)
                   + ((153 * (if month c \<le> 2 then month c + 9 else month c - 3) + 2) div 5
                      + (if month c \<le> 2 then - 306 else 59)
                      + (if gregorianLeap (year c) \<and> 3 \<le> month c then 1 else 0))
                   + (day c - 1))
                + (3600 * hour c + 60 * minute c + second c))"
  using daysUpto_read[OF assms, of "year c"]
  by (simp add: civilToEpoch_def structTm_def timegmCustom_def time_consts algebra_simps)

lemma clock_fields:
  fixes h mi s :: int
  assumes "0 \<le> h" "h \<le> 23" "0 \<le> mi" "mi \<le> 59" "0 \<le> s" "s \<le> 59"
    and "r = 3600 * h + 60 * mi + s"
  shows "(86400 * D + r) div 86400 = D" and "(86400 * D + r) mod 86400 = r"
    and "r div 3600 = h" and "r mod 3600 div 60 = mi" and "r mod 60 = s"
proof -
  have rb: "0 \<le> r" "r < 86400" using assms by linarith+
  show "(86400 * D + r) div 86400 = D"
    using rb by (rule int_div_pos_eq[OF refl])
  show "(86400 * D + r) mod 86400 = r"
    using rb by (rule int_mod_pos_eq[OF refl])
  have e: "r = 3600 * h + (60 * mi + s)" using assms(7) by simp
  have b: "0 \<le> 60 * mi + s" "60 * mi + s < 3600" using assms by linarith+
  show "r div 3600 = h" using e b by (rule int_div_pos_eq)
  have m: "r mod 3600 = 60 * mi + s" using e b by (rule int_mod_pos_eq)
  have "(60 * mi + s) div 60 = mi"
    using assms(5,6) by (intro int_div_pos_eq[OF refl]) linarith+
  then show "r mod 3600 div 60 = mi" using m by simp
  have e': "r = 60 * (60 * h + mi) + s" using assms(7) by simp
  show "r mod 60 = s"
    using e' assms(5) by (rule int_mod_pos_eq) (use assms(6) in linarith)
qed

text \<open>The breakdown undoes \<open>civilToEpoch\<close> on every date of the Gregorian calendar.\<close>

lemma epochToCivil_inverts:
  assumes "1 \<le> month t" and "month t \<le> 12"
    and "1 \<le> day t" and "day t \<le> daysInMonth (year t) (month t)"
    and "0 \<le> hour t" and "hour t \<le> 23"
    and "0 \<le> minute t" and "minute t \<le> 59"
    and "0 \<le> second t" and "second t \<le> 59"
  shows "\<exists>e. civilToEpoch t = Inr e \<and> epochToCivil e = t"
proof -
  define D where "D = 365 * (year t - 1970) + NumLeapDays (year t - 1970)
                   + ((153 * (if month t \<le> 2 then month t + 9 else month t - 3) + 2) div 5
                      + (if month t \<le> 2 then - 306 else 59)
                      + (if gregorianLeap (year t) \<and> 3 \<le> month t then 1 else 0))
                   + (day t - 1)"
  define r where "r = 3600 * hour t + 60 * minute t + second t"
  have e: "civilToEpoch t = Inr (86400 * D + r)"
    using timegmCustom_day_number[OF assms(1,2)] by (simp add: D_def r_def)
  have c: "civilFromDays D = (year t, month t, day t)"
    unfolding D_def by (rule civilFromDays_day_number[OF assms(1-4)])
  note f = clock_fields[OF assms(5-10) r_def]
  have "epochToCivil (86400 * D + r) = t"
    unfolding epochToCivil_def Let_def f c by simp
  with e show ?thesis by blast
qed

text \<open>
  Claim C3. For every civil time \<open>t\<close> with its year from 1901 to 2100, its month from 1 to
  12, its day valid for that month and year, its hour from 0 to 23 and its minute and
  second from 0 to 59, \<open>civilToEpoch t\<close> is a value whose breakdown \<open>epochToCivil\<close> is \<open>t\<close>
  again.
\<close>

theorem epochToCivil_civilToEpoch:
  assumes "1901 \<le> year t" and "year t \<le> 2100"
    and "1 \<le> month t" and "month t \<le> 12"
    and "1 \<le> day t" and "day t \<le> daysInMonth (year t) (month t)"
    and "0 \<le> hour t" and "hour t \<le> 23"
    and "0 \<le> minute t" and "minute t \<le> 59"
    and "0 \<le> second t" and "second t \<le> 59"
  shows "\<exists>e. civilToEpoch t = Inr e \<and> epochToCivil e = t"
  using assms(3-12) by (rule epochToCivil_inverts)

lemma civilToEpoch_2100:
  "civilToEpoch \<lparr>year = 2100, month = 2, day = 28, hour = 23, minute = 59, second = 59\<rparr>
     = Inr 4107542399"
proof -
  have "\<not> IsLeapYear 200"
    using IsLeapYear_gregorianLeap[of 2100] by (simp add: gregorianLeap_def)
  moreover have "NumLeapDays 130 = 32"
    by (simp add: NumLeapDays_floor leapsThrough_def)
  ultimately show ?thesis
    by (simp add: civilToEpoch_def structTm_def timegmCustom_def arrayRead_def time_consts
        kDaysUptoMonth_def)
qed

text \<open>The last second of February 2100, a year that is not a leap year.\<close>

theorem epochToCivil_civilToEpoch_witness:
  "civilToEpoch \<lparr>year = 2100, month = 2, day = 28, hour = 23, minute = 59, second = 59\<rparr>
     = Inr 4107542399
   \<and> epochToCivil 4107542399
     = \<lparr>year = 2100, month = 2, day = 28, hour = 23, minute = 59, second = 59\<rparr>"
proof -
  obtain e where
    "civilToEpoch \<lparr>year = 2100, month = 2, day = 28, hour = 23, minute = 59, second = 59\<rparr>
       = Inr e"
    "epochToCivil e
       = \<lparr>year = 2100, month = 2, day = 28, hour = 23, minute = 59, second = 59\<rparr>"
    using epochToCivil_civilToEpoch[of
        "\<lparr>year = 2100, month = 2, day = 28, hour = 23, minute = 59, second = 59\<rparr>"]
    by (auto simp add: daysInMonth_def gregorianLeap_def)
  then show ?thesis using civilToEpoch_2100 by simp
qed

end
